theory Spec2Isabelle
  imports Main "HOL-Library.Word"
begin

section \<open>Machine arithmetic of the Go source\<close>

text \<open>
  The source computes with Go's \<open>int\<close> and with \<open>time.Duration\<close> (an \<open>int64\<close> counting
  nanoseconds). Both are modelled as \<open>int\<close> with the 64-bit two's-complement wrap-around
  written out where an operation can leave the range (a 64-bit platform is assumed for
  \<open>int\<close>). Go's integer division truncates toward zero.
\<close>

definition wrap64 :: "int \<Rightarrow> int" where
  "wrap64 x = (x + 2 ^ 63) mod 2 ^ 64 - 2 ^ 63"

definition quo :: "int \<Rightarrow> int \<Rightarrow> int" where
  "quo a b = sgn a * sgn b * (\<bar>a\<bar> div \<bar>b\<bar>)"

text \<open>\<open>time.Millisecond\<close>, in nanoseconds.\<close>

definition Millisecond :: int where
  "Millisecond = 1000000"

text \<open>\<open>time.Second\<close>, in nanoseconds.\<close>

definition Second :: int where
  "Second = 1000000000"

text \<open>
  \<open>int(1 << uint(retries))\<close>: the constant 1 takes the type \<open>int\<close>; a shift count of 64 or
  more gives 0, a count of 63 gives the least \<open>int\<close>; a negative \<open>retries\<close> converts to a
  shift count above 64.
\<close>

definition shl1 :: "int \<Rightarrow> int" where
  "shl1 retries = (if 0 \<le> retries \<and> retries < 64 then wrap64 (2 ^ nat retries) else 0)"

datatype panic = InvalidArgumentToIntn | NilPointerDereference

text \<open>
  \<open>random.Intn(n)\<close> of \<open>math/rand\<close>: it panics when \<open>n \<le> 0\<close> and otherwise returns a
  number of the half-open interval from 0 to \<open>n\<close>. The generator is shared and global
  (\<open>var random *rand.Rand\<close>); its raw draw is a parameter here, reduced into the interval.
\<close>

definition Intn :: "int \<Rightarrow> int \<Rightarrow> panic + int" where
  "Intn raw n = (if n \<le> 0 then Inl InvalidArgumentToIntn else Inr (raw mod n))"

section \<open>The backoff calculator\<close>

text \<open>
  \<^verbatim>\<open>
  func expJitterBackOff(retries int, backOffDelayFactor time.Duration) time.Duration {
      exp := int(1 << uint(retries))
      ms := exp * int(backOffDelayFactor/time.Millisecond)
      maxJitter := ms / 3
      // ms +- rand
      ms += random.Intn(2*maxJitter) - maxJitter
      if ms <= 0 {
          ms = 1
      }
      return time.Duration(ms) * time.Millisecond
  }
  \<close>
  The first argument of the model is the raw draw of the random source. The product
  \<open>2*maxJitter\<close> and the difference \<open>Intn(...) - maxJitter\<close> cannot leave the 64-bit
  range (\<open>maxJitter\<close> is a third of a 64-bit number), the other operations can.
\<close>

definition expJitterBackOff :: "int \<Rightarrow> int \<Rightarrow> int \<Rightarrow> panic + int" where
  "expJitterBackOff raw retries backOffDelayFactor =
     (let exp = shl1 retries;
          ms = wrap64 (exp * quo backOffDelayFactor Millisecond);
          maxJitter = quo ms 3
      in case Intn raw (2 * maxJitter) of
           Inl p \<Rightarrow> Inl p
         | Inr j \<Rightarrow>
             (let ms' = wrap64 (ms + (j - maxJitter));
                  ms'' = (if ms' \<le> 0 then 1 else ms')
              in Inr (wrap64 (ms'' * Millisecond))))"

section \<open>Data model\<close>

type_synonym byte = "8 word"

datatype error = ErrorString string

text \<open>The error \<open>net/http\<close> reports for a request whose context is already done.\<close>

definition Canceled :: error where
  "Canceled = ErrorString ''context canceled''"

text \<open>
  An \<open>io.Reader\<close> over a byte sequence: \<open>off\<close> is the read position, and a reader with a
  \<open>failure\<close> fails every read with that error.
\<close>

record reader =
  buf :: "byte list"
  off :: nat
  failure :: "error option"

text \<open>
  The part of \<open>*http.Request\<close> the client touches: \<open>Body\<close> is replaced by \<open>Do\<close> before
  every attempt; \<open>CtxDone\<close> tells whether the request's context is already cancelled when
  \<open>Do\<close> is called (a cancelled context stays cancelled).
\<close>

record request =
  Method :: string
  URL :: string
  Body :: "reader option"
  CtxDone :: bool

record response =
  StatusCode :: int
  Content :: "byte list"

record FailAwareHTTPOptions =
  MaxRetries :: int
  Timeout :: int
  BackOffDelayFactor :: int
  KeepLog :: bool

record FailAwareHTTPClient =
  httpClientTimeout :: int
  options :: FailAwareHTTPOptions

record ErrEntry =
  err :: "error option"
  response :: "response option"
  timestampStarted :: int
  timestampFinished :: int

record FailAwareHTTPError =
  Retries :: int
  Errors :: "ErrEntry list"
  LastError :: "error option"

text \<open>
  The \<open>error\<close> interface value \<open>Do\<close> returns holds either the plain error of reading the
  body or a \<open>FailAwareHTTPError\<close>; \<open>nil\<close> is \<open>None\<close>.
\<close>

datatype do_error = Plain error | FailAware FailAwareHTTPError

datatype result = Returned "response option" "do_error option" | Panicked panic

section \<open>Client construction\<close>

definition NewDefaultOptions :: FailAwareHTTPOptions where
  "NewDefaultOptions =
     \<lparr>MaxRetries = 3, Timeout = 1 * Second, BackOffDelayFactor = 1 * Second, KeepLog = False\<rparr>"

definition defaultOptions :: FailAwareHTTPOptions where
  "defaultOptions = NewDefaultOptions"

definition nullOptions :: FailAwareHTTPOptions where
  "nullOptions = \<lparr>MaxRetries = 0, Timeout = 0, BackOffDelayFactor = 0, KeepLog = False\<rparr>"

definition NewClient :: "FailAwareHTTPOptions \<Rightarrow> FailAwareHTTPClient" where
  "NewClient opts =
     (let timeout = (if Timeout opts = Timeout nullOptions
                     then Timeout defaultOptions else Timeout opts);
          maxRetries = (if MaxRetries opts = MaxRetries nullOptions
                        then MaxRetries defaultOptions else MaxRetries opts);
          backOffDelay = (if BackOffDelayFactor opts = BackOffDelayFactor nullOptions
                          then BackOffDelayFactor defaultOptions else BackOffDelayFactor opts);
          effectiveOptions = \<lparr>MaxRetries = maxRetries, Timeout = timeout,
                               BackOffDelayFactor = backOffDelay, KeepLog = KeepLog opts\<rparr>
      in \<lparr>httpClientTimeout = Timeout effectiveOptions, options = effectiveOptions\<rparr>)"

definition NewDefaultClient :: FailAwareHTTPClient where
  "NewDefaultClient = NewClient defaultOptions"

section \<open>The world around a call\<close>

text \<open>
  What \<open>Do\<close> does not decide is a parameter, indexed by the attempt (counted from 0):
  the outcome of \<open>c.httpClient.Do\<close> for the request handed to it, how many bytes of the
  request body the transport reads, how long the round trip takes, the raw draw of the
  random source, by how much the timer of \<open>time.After\<close> fires late, and the time at which
  the call starts. Durations and times are in nanoseconds.
\<close>

record env =
  roundTrip :: "nat \<Rightarrow> request \<Rightarrow> response option \<times> error option"
  consumed :: "nat \<Rightarrow> nat"
  took :: "nat \<Rightarrow> nat"
  draw :: "nat \<Rightarrow> int"
  lag :: "nat \<Rightarrow> nat"
  start :: int

text \<open>
  One record per loop iteration, kept beside the program's own variables: the body reader
  handed to the transport, the outcome of the transport, and the wait that followed the
  attempt (\<open>None\<close> when the iteration left the loop without waiting).
\<close>

record attempt =
  handed :: "reader option"
  outcome :: "response option \<times> error option"
  waited :: "int option"

text \<open>The local variables of \<open>Do\<close> in the loop, the clock and the record of attempts.\<close>

record locals =
  lastResponse :: "response option"
  lastError :: "error option"
  retried :: int
  errLog :: "ErrEntry list"
  req :: request
  now :: int
  trace :: "attempt list"

datatype flow = Exit result "attempt list" | Next locals

section \<open>Reading and replaying the body\<close>

text \<open>\<open>ioutil.ReadAll\<close>: the bytes from the read position to the end, or the reader's error.\<close>

definition ReadAll :: "reader \<Rightarrow> error + byte list" where
  "ReadAll r = (case failure r of Some e \<Rightarrow> Inl e | None \<Rightarrow> Inr (drop (off r) (buf r)))"

text \<open>
  \<^verbatim>\<open>
  func readBody(body io.Reader) ([]byte, error) {
      if body == nil {
          return nil, nil
      }
      strBody, err := ioutil.ReadAll(body)
      if err != nil {
          return nil, err
      }
      return strBody, nil
  }
  \<close>
  \<open>ReadAll\<close> returns a slice that is not \<open>nil\<close> also for an empty body, so the \<open>nil\<close> slice
  (\<open>None\<close>) stands for the absent body only.
\<close>

definition readBody :: "reader option \<Rightarrow> error + byte list option" where
  "readBody body =
     (case body of
        None \<Rightarrow> Inr None
      | Some r \<Rightarrow> (case ReadAll r of Inl e \<Rightarrow> Inl e | Inr strBody \<Rightarrow> Inr (Some strBody)))"

text \<open>A reader after \<open>n\<close> more bytes were read from it, and after it was read to its end.\<close>

definition advance :: "nat \<Rightarrow> reader \<Rightarrow> reader" where
  "advance n r = r\<lparr>off := min (off r + n) (length (buf r))\<rparr>"

definition drain :: "reader \<Rightarrow> reader" where
  "drain r = r\<lparr>off := length (buf r)\<rparr>"

text \<open>\<open>ioutil.NopCloser(bytes.NewBuffer(originalBody))\<close>: a reader at offset zero.\<close>

definition NewBuffer :: "byte list \<Rightarrow> reader" where
  "NewBuffer b = \<lparr>buf = b, off = 0, failure = None\<rparr>"

text \<open>
  Lines 182 to 186, at the head of every iteration:
  \<^verbatim>\<open>
      if originalBody != nil {
          reqBody := bytes.NewBuffer(originalBody)
          //just replace the body of the original request
          originalReq.Body = ioutil.NopCloser(reqBody)
      }
  \<close>
\<close>

definition replay :: "byte list option \<Rightarrow> request \<Rightarrow> request" where
  "replay originalBody rq =
     (case originalBody of
        None \<Rightarrow> rq
      | Some b \<Rightarrow> rq\<lparr>Body := Some (NewBuffer b)\<rparr>)"

section \<open>The attempt loop\<close>

text \<open>
  \<open>c.httpClient.Do(originalReq)\<close>: a request whose context is done fails with the
  context's error before anything is sent; otherwise the world decides the outcome and
  the transport reads from the request's body.
\<close>

definition httpClientDo :: "env \<Rightarrow> nat \<Rightarrow> request \<Rightarrow> (response option \<times> error option) \<times> request" where
  "httpClientDo e k rq =
     (if CtxDone rq then ((None, Some Canceled), rq)
      else (roundTrip e k rq, rq\<lparr>Body := map_option (advance (consumed e k)) (Body rq)\<rparr>))"

definition errEntryNow :: "error option \<Rightarrow> response option \<Rightarrow> int \<Rightarrow> int \<Rightarrow> ErrEntry" where
  "errEntryNow er rsp started timeNow =
     \<lparr>err = er, response = rsp, timestampStarted = started, timestampFinished = timeNow\<rparr>"

text \<open>
  The condition of line 194,
  \<open>lastError == nil && lastResponse.StatusCode < 500 && lastResponse.StatusCode != 429\<close>,
  evaluated left to right: with an error it is false; without one the response is
  dereferenced.
\<close>

definition terminalSuccess :: "response option \<Rightarrow> error option \<Rightarrow> panic + bool" where
  "terminalSuccess rsp er =
     (case er of
        Some _ \<Rightarrow> Inr False
      | None \<Rightarrow>
          (case rsp of
             None \<Rightarrow> Inl NilPointerDereference
           | Some r \<Rightarrow> Inr (StatusCode r < 500 \<and> StatusCode r \<noteq> 429)))"

text \<open>
  The body of the loop (lines 181 to 204), for the iteration with \<open>retried = retried s\<close>:
  \<^verbatim>\<open>
      if originalBody != nil {
          reqBody := bytes.NewBuffer(originalBody)
          originalReq.Body = ioutil.NopCloser(reqBody)
      }
      started := time.Now()
      lastResponse, lastError = c.httpClient.Do(originalReq)
      if c.options.KeepLog {
          errLog = append(errLog, errEntryNow(lastError, lastResponse, started))
      }
      if lastError == nil && lastResponse.StatusCode < 500 && lastResponse.StatusCode != 429 {
          if lastError == nil {
              return lastResponse, nil
          }
          return lastResponse, FailAwareHTTPError{Retries: retried, Errors: errLog, LastError: lastError}
      }
      jitter := expJitterBackOff(retried, c.options.BackOffDelayFactor)
      <-time.After(jitter)
      log.Debugf("Retry #%d of request, waited %#v before retry", (retried + 1), jitter)
  \<close>
  The first statement is \<open>replay\<close>. The clock advances by the duration of the round trip
  and by the wait; a timer with a duration that is not positive fires at once. The debug
  message does not influence the call and is left out.
\<close>

definition iteration :: "env \<Rightarrow> FailAwareHTTPClient \<Rightarrow> byte list option \<Rightarrow> locals \<Rightarrow> flow" where
  "iteration e c originalBody s =
     (let k = nat (retried s);
          rq = replay originalBody (req s);
          started = now s;
          (out, rq') = httpClientDo e k rq;
          finished = started + int (took e k);
          errLog' = (if KeepLog (options c)
                     then errLog s @ [errEntryNow (snd out) (fst out) started finished]
                     else errLog s);
          unwaited = trace s @ [\<lparr>handed = Body rq, outcome = out, waited = None\<rparr>]
      in case terminalSuccess (fst out) (snd out) of
           Inl p \<Rightarrow> Exit (Panicked p) unwaited
         | Inr True \<Rightarrow>
             (if snd out = None then Exit (Returned (fst out) None) unwaited
              else Exit (Returned (fst out)
                     (Some (FailAware \<lparr>Retries = retried s, Errors = errLog',
                                        LastError = snd out\<rparr>))) unwaited)
         | Inr False \<Rightarrow>
             (case expJitterBackOff (draw e k) (retried s) (BackOffDelayFactor (options c)) of
                Inl p \<Rightarrow> Exit (Panicked p) unwaited
              | Inr jitter \<Rightarrow>
                  Next (s\<lparr>lastResponse := fst out, lastError := snd out, errLog := errLog',
                          req := rq', now := finished + max 0 jitter + int (lag e k),
                          trace := trace s @ [\<lparr>handed = Body rq, outcome = out,
                                                 waited = Some jitter\<rparr>]\<rparr>)))"

text \<open>
  After the loop (lines 207 to 210):
  \<^verbatim>\<open>
      if lastError == nil {
          return lastResponse, nil
      }
      return lastResponse, FailAwareHTTPError{Retries: retried, Errors: errLog, LastError: lastError}
  \<close>
\<close>

definition exhausted :: "locals \<Rightarrow> result \<times> attempt list" where
  "exhausted s =
     (if lastError s = None then (Returned (lastResponse s) None, trace s)
      else (Returned (lastResponse s)
              (Some (FailAware \<lparr>Retries = retried s, Errors = errLog s,
                                 LastError = lastError s\<rparr>)), trace s))"

text \<open>\<open>for ; retried < c.options.MaxRetries; retried++ { ... }\<close>\<close>

function Do_loop :: "env \<Rightarrow> FailAwareHTTPClient \<Rightarrow> byte list option \<Rightarrow> locals \<Rightarrow> result \<times> attempt list" where
  "Do_loop e c originalBody s =
     (if retried s < MaxRetries (options c) then
        (case iteration e c originalBody s of
           Exit r t \<Rightarrow> (r, t)
         | Next s' \<Rightarrow> Do_loop e c originalBody (s'\<lparr>retried := retried s' + 1\<rparr>))
      else exhausted s)"
  by pat_completeness auto
termination
  by (relation "measure (\<lambda>(e, c, originalBody, s). nat (MaxRetries (options c) - retried s))")
     (auto simp: iteration_def Let_def split: prod.splits sum.splits bool.splits if_splits)

declare Do_loop.simps [simp del]

text \<open>
  \<^verbatim>\<open>
  func (c *FailAwareHTTPClient) Do(originalReq *http.Request) (*http.Response, error) {
      originalBody, err := readBody(originalReq.Body)
      defer func() { ... originalReq.Body.Close() ... }()
      if err != nil {
          return nil, err
      }
      var lastResponse *http.Response
      var lastError error
      retried := 0
      var errLog []ErrEntry
      for ...
  \<close>
  Reading the body leaves its reader at the end; \<open>entering\<close> is the state in which the
  loop is entered. The deferred function closes the body the request holds when \<open>Do\<close> is
  left; it changes nothing that \<open>Do\<close> returns and is left out. The model returns what \<open>Do\<close>
  returns together with the record of the attempts made.
\<close>

definition entering :: "env \<Rightarrow> request \<Rightarrow> locals" where
  "entering e originalReq =
     \<lparr>lastResponse = None, lastError = None, retried = 0, errLog = [],
      req = originalReq\<lparr>Body := map_option drain (Body originalReq)\<rparr>,
      now = start e, trace = []\<rparr>"

definition Do :: "env \<Rightarrow> FailAwareHTTPClient \<Rightarrow> request \<Rightarrow> result \<times> attempt list" where
  "Do e c originalReq =
     (case readBody (Body originalReq) of
        Inl er \<Rightarrow> (Returned None (Some (Plain er)), [])
      | Inr originalBody \<Rightarrow> Do_loop e c originalBody (entering e originalReq))"

section \<open>Notions used in the statements\<close>

text \<open>
  An attempt outcome is retryable when the condition of line 194 evaluates to false, so
  that the iteration goes on to the backoff.
\<close>

definition retryable :: "response option \<times> error option \<Rightarrow> bool" where
  "retryable out \<longleftrightarrow> terminalSuccess (fst out) (snd out) = Inr False"

text \<open>The outcome of attempt \<open>k\<close> of a call for the request \<open>rq\<close> with captured body \<open>ob\<close>.\<close>

definition outcomeAt :: "env \<Rightarrow> byte list option \<Rightarrow> request \<Rightarrow> nat \<Rightarrow> response option \<times> error option" where
  "outcomeAt e ob rq k = fst (httpClientDo e k (rq\<lparr>Body := map_option NewBuffer ob\<rparr>))"

text \<open>The outcome of the attempt made by the iteration that starts in state \<open>s\<close>.\<close>

abbreviation attemptOutcome :: "env \<Rightarrow> byte list option \<Rightarrow> locals \<Rightarrow> response option \<times> error option" where
  "attemptOutcome e ob s \<equiv> fst (httpClientDo e (nat (retried s)) (replay ob (req s)))"

section \<open>Concrete worlds, clients and requests\<close>

definition dialError :: error where
  "dialError = ErrorString ''dial tcp: connection refused''"

definition readError :: error where
  "readError = ErrorString ''unexpected EOF''"

text \<open>A world whose transport fails on every attempt, as for an address nobody listens on.\<close>

definition unreachable :: env where
  "unreachable =
     \<lparr>roundTrip = (\<lambda>k rq. (None, Some dialError)), consumed = (\<lambda>k. 0), took = (\<lambda>k. 1000),
      draw = (\<lambda>k. 0), lag = (\<lambda>k. 0), start = 0\<rparr>"

text \<open>A world whose server answers every request with the given status.\<close>

definition answering :: "int \<Rightarrow> env" where
  "answering status =
     \<lparr>roundTrip = (\<lambda>k rq. (Some \<lparr>StatusCode = status, Content = []\<rparr>, None)),
      consumed = (\<lambda>k. 4), took = (\<lambda>k. 1000), draw = (\<lambda>k. 0), lag = (\<lambda>k. 0), start = 0\<rparr>"

text \<open>
  A world whose server answers every request with status 500 and sends back the bytes it
  can read from the body of the request it was given; its transport reads four bytes of
  the body in every attempt.
\<close>

definition echoing :: env where
  "echoing =
     \<lparr>roundTrip = (\<lambda>k rq. (Some \<lparr>StatusCode = 500,
                                     Content = (case Body rq of
                                                  None \<Rightarrow> []
                                                | Some r \<Rightarrow> drop (off r) (buf r))\<rparr>, None)),
      consumed = (\<lambda>k. 4), took = (\<lambda>k. 1000), draw = (\<lambda>k. 0), lag = (\<lambda>k. 0), start = 0\<rparr>"

definition getRequest :: request where
  "getRequest = \<lparr>Method = ''GET'', URL = ''http://localhost/'', Body = None, CtxDone = False\<rparr>"

definition postRequest :: request where
  "postRequest =
     \<lparr>Method = ''POST'', URL = ''http://localhost/'',
      Body = Some \<lparr>buf = [100, 117, 109, 109, 121], off = 0, failure = None\<rparr>,
      CtxDone = False\<rparr>"

text \<open>A request whose body fails when it is read.\<close>

definition brokenRequest :: request where
  "brokenRequest =
     \<lparr>Method = ''POST'', URL = ''http://localhost/'',
      Body = Some \<lparr>buf = [], off = 0, failure = Some readError\<rparr>, CtxDone = False\<rparr>"

text \<open>A request whose context was cancelled before the call.\<close>

definition cancelledRequest :: request where
  "cancelledRequest = getRequest\<lparr>CtxDone := True\<rparr>"

text \<open>The options of the repository's tests, with the number of attempts as a parameter.\<close>

definition optionsWithMinTimeouts :: "int \<Rightarrow> FailAwareHTTPOptions" where
  "optionsWithMinTimeouts n =
     \<lparr>MaxRetries = n, Timeout = 10 * Millisecond, BackOffDelayFactor = 5 * Millisecond,
      KeepLog = True\<rparr>"

lemmas world_defs =
  unreachable_def answering_def echoing_def getRequest_def postRequest_def brokenRequest_def
  cancelledRequest_def optionsWithMinTimeouts_def dialError_def readError_def Canceled_def

lemmas client_defs =
  NewClient_def NewDefaultClient_def defaultOptions_def NewDefaultOptions_def nullOptions_def
  Second_def Millisecond_def

lemmas run_defs =
  Do_def entering_def readBody_def ReadAll_def replay_def NewBuffer_def drain_def advance_def
  Do_loop.simps iteration_def exhausted_def httpClientDo_def errEntryNow_def
  terminalSuccess_def expJitterBackOff_def shl1_def wrap64_def quo_def Intn_def

section \<open>Arithmetic facts\<close>

lemma wrap64_id: "0 \<le> x \<Longrightarrow> x < 2 ^ 63 \<Longrightarrow> wrap64 x = x"
  by (simp add: wrap64_def)

lemma quo_nonneg: "0 \<le> a \<Longrightarrow> 0 < b \<Longrightarrow> quo a b = a div b"
  by (cases "a = 0") (simp_all add: quo_def)

lemma backoff_in_range:
  fixes i factor raw :: int
  defines "base \<equiv> 2 ^ nat i * (factor div Millisecond)"
  assumes i: "0 \<le> i" and f: "0 \<le> factor" and lo: "3 \<le> base"
    and hi: "base * Millisecond \<le> 2 ^ 62"
  shows "expJitterBackOff raw i factor =
           Inr ((base + (raw mod (2 * (base div 3)) - base div 3)) * Millisecond)"
proof -
  have fpos: "1 \<le> factor div Millisecond"
  proof (rule ccontr)
    assume "\<not> 1 \<le> factor div Millisecond"
    moreover have "0 \<le> factor div Millisecond"
      using f by (simp add: Millisecond_def pos_imp_zdiv_nonneg_iff)
    ultimately have "factor div Millisecond = 0" by linarith
    with lo show False by (simp add: base_def)
  qed
  have p1: "(1::int) \<le> 2 ^ nat i" by simp
  have pb: "2 ^ nat i \<le> base"
    unfolding base_def using fpos p1 by (simp add: mult_le_cancel_left1)
  have bM: "base \<le> base * Millisecond"
    using lo by (simp add: Millisecond_def)
  have b62: "base \<le> 2 ^ 62" using bM hi by linarith
  have "(2::int) ^ nat i \<le> 2 ^ 62" using pb b62 by linarith
  then have "nat i \<le> 62" using power_le_imp_le_exp [of "2::int" "nat i" 62] by simp
  then have i64: "i < 64" by linarith
  have "wrap64 (2 ^ nat i) = 2 ^ nat i"
    by (rule wrap64_id) (use p1 pb b62 in simp_all)
  then have sh: "shl1 i = 2 ^ nat i"
    using i i64 by (simp add: shl1_def)
  have q: "quo factor Millisecond = factor div Millisecond"
    using f by (simp add: quo_nonneg Millisecond_def)
  have "wrap64 base = base"
    by (rule wrap64_id) (use lo b62 in simp_all)
  then have ms: "wrap64 (shl1 i * quo factor Millisecond) = base"
    by (simp add: sh q base_def [symmetric])
  have mj: "quo base 3 = base div 3" using lo by (simp add: quo_nonneg)
  define m where "m = base div 3"
  have m1: "1 \<le> m" using lo unfolding m_def by linarith
  have m3: "3 * m \<le> base" unfolding m_def by linarith
  define j where "j = raw mod (2 * m)"
  have j0: "0 \<le> j" and j2: "j < 2 * m" using m1 unfolding j_def by simp_all
  have intn: "Intn raw (2 * m) = Inr j" using m1 by (simp add: Intn_def j_def)
  have r1: "0 < base + (j - m)" using j0 m1 m3 by linarith
  have r2: "base + (j - m) < 2 ^ 63" using j2 m3 b62 by simp
  have w1: "wrap64 (base + (j - m)) = base + (j - m)"
    by (rule wrap64_id) (use r1 r2 in simp_all)
  have "3 * ((base + (j - m)) * Millisecond) \<le> 4 * (base * Millisecond)"
    using j2 m3 by (simp add: Millisecond_def)
  then have r3: "(base + (j - m)) * Millisecond < 2 ^ 63" using hi by simp
  have r4: "0 \<le> (base + (j - m)) * Millisecond" using r1 by (simp add: Millisecond_def)
  have w2: "wrap64 ((base + (j - m)) * Millisecond) = (base + (j - m)) * Millisecond"
    by (rule wrap64_id) (use r3 r4 in simp_all)
  show ?thesis
    using r1 by (simp add: expJitterBackOff_def Let_def ms mj intn w1 w2
                   m_def [symmetric] j_def [symmetric])
qed

section \<open>A rule for the loop\<close>

text \<open>
  An invariant that holds at the loop head and is kept by every iteration that goes on
  gives a property of the result, once every way of leaving the loop establishes it.
\<close>

lemma Do_loop_rule:
  assumes "I s"
    and "\<And>s s'. I s \<Longrightarrow> retried s < MaxRetries (options c) \<Longrightarrow> iteration e c ob s = Next s'
            \<Longrightarrow> I (s'\<lparr>retried := retried s' + 1\<rparr>)"
    and "\<And>s r t. I s \<Longrightarrow> retried s < MaxRetries (options c) \<Longrightarrow> iteration e c ob s = Exit r t
            \<Longrightarrow> Q (r, t)"
    and "\<And>s. I s \<Longrightarrow> \<not> retried s < MaxRetries (options c) \<Longrightarrow> Q (exhausted s)"
  shows "Q (Do_loop e c ob s)"
  using assms
proof (induction e c ob s rule: Do_loop.induct)
  case (1 e c ob s)
  note inv = "1.prems"(1) and step = "1.prems"(2) and leave = "1.prems"(3) and fall = "1.prems"(4)
  show ?case
  proof (cases "retried s < MaxRetries (options c)")
    case False
    then have "Do_loop e c ob s = exhausted s"
      by (simp add: Do_loop.simps)
    with fall [OF inv False] show ?thesis by simp
  next
    case True
    show ?thesis
    proof (cases "iteration e c ob s")
      case (Exit r t)
      with True have "Do_loop e c ob s = (r, t)"
        by (simp add: Do_loop.simps)
      with leave [OF inv True Exit] show ?thesis by simp
    next
      case (Next s')
      with True have "Do_loop e c ob s = Do_loop e c ob (s'\<lparr>retried := retried s' + 1\<rparr>)"
        by (simp add: Do_loop.simps)
      moreover have "Q (Do_loop e c ob (s'\<lparr>retried := retried s' + 1\<rparr>))"
        using "1.IH" [OF True Next step [OF inv True Next]] step leave fall by blast
      ultimately show ?thesis by simp
    qed
  qed
qed

section \<open>One iteration\<close>

lemma iteration_Next:
  assumes "iteration e c ob s = Next s'"
  obtains jitter where
    "retryable (attemptOutcome e ob s)"
    "expJitterBackOff (draw e (nat (retried s))) (retried s) (BackOffDelayFactor (options c)) = Inr jitter"
    "lastResponse s' = fst (attemptOutcome e ob s)"
    "lastError s' = snd (attemptOutcome e ob s)"
    "retried s' = retried s"
    "errLog s' = (if KeepLog (options c)
                  then errLog s @ [errEntryNow (snd (attemptOutcome e ob s)) (fst (attemptOutcome e ob s))
                                     (now s) (now s + int (took e (nat (retried s))))]
                  else errLog s)"
    "req s' = snd (httpClientDo e (nat (retried s)) (replay ob (req s)))"
    "now s' = now s + int (took e (nat (retried s))) + max 0 jitter + int (lag e (nat (retried s)))"
    "trace s' = trace s @ [\<lparr>handed = Body (replay ob (req s)), outcome = attemptOutcome e ob s,
                             waited = Some jitter\<rparr>]"
  using assms
  by (auto simp: iteration_def retryable_def Let_def split: prod.splits sum.splits bool.splits if_splits)

lemma iteration_Exit:
  assumes "iteration e c ob s = Exit r t"
  shows "t = trace s @ [\<lparr>handed = Body (replay ob (req s)),
                          outcome = attemptOutcome e ob s, waited = None\<rparr>]
      \<and> (case terminalSuccess (fst (attemptOutcome e ob s)) (snd (attemptOutcome e ob s)) of
           Inl p \<Rightarrow> r = Panicked p
         | Inr True \<Rightarrow> r = Returned (fst (attemptOutcome e ob s)) None
         | Inr False \<Rightarrow> r = Panicked InvalidArgumentToIntn
             \<and> expJitterBackOff (draw e (nat (retried s))) (retried s) (BackOffDelayFactor (options c))
                 = Inl InvalidArgumentToIntn)"
  using assms
  by (auto simp: iteration_def retryable_def Let_def terminalSuccess_def expJitterBackOff_def Intn_def
       split: prod.splits sum.splits bool.splits if_splits option.splits)


section \<open>The classification of an attempt\<close>



section \<open>The backoff\<close>

text \<open>
  Claim C4, as stated, fails: the factor is cut to whole milliseconds before anything
  else is computed. With a factor of 3.5 ms and attempt 0 the base of the claim is
  3500000 ns and its lower bound 2333334 ns, while the code computes with 3 ms and, for
  the draw 0, returns 2 ms.
\<close>

theorem expJitterBackOff_truncates_factor:
  "expJitterBackOff 0 0 3500000 = Inr 2000000
   \<and> \<not> (2 ^ nat 0 * 3500000 - 2 ^ nat 0 * 3500000 div 3 \<le> (2000000::int))"
  by (simp add: expJitterBackOff_def shl1_def wrap64_def quo_def Intn_def Millisecond_def)

text \<open>
  Claim C4, amended. Let \<open>base = 2^i * (factor div 1 ms)\<close> in milliseconds and
  \<open>maxJitter = base div 3\<close>. For every attempt index \<open>i \<ge> 0\<close> and every factor \<open>\<ge> 0\<close> with
  \<open>base \<ge> 3\<close> (so that \<open>maxJitter \<ge> 1\<close>) and \<open>base\<close> milliseconds at most \<open>2^62\<close> ns (no
  overflow), the calculator returns \<open>base + jitter\<close> milliseconds, where \<open>jitter\<close> is the
  value of \<open>Intn(2*maxJitter) - maxJitter\<close>: it lies in the half-open interval from
  \<open>-maxJitter\<close> to \<open>maxJitter\<close>, every value of that interval is returned for some draw,
  and the result lies between \<open>base - base div 3\<close> and \<open>base + base div 3\<close> and is positive.
\<close>

theorem expJitterBackOff_formula:
  fixes i factor raw :: int
  defines "base \<equiv> 2 ^ nat i * (factor div Millisecond)"
  defines "maxJitter \<equiv> base div 3"
  defines "jitter \<equiv> raw mod (2 * maxJitter) - maxJitter"
  assumes "0 \<le> i" and "0 \<le> factor" and "3 \<le> base" and "base * Millisecond \<le> 2 ^ 62"
  shows "expJitterBackOff raw i factor = Inr ((base + jitter) * Millisecond)
       \<and> - maxJitter \<le> jitter \<and> jitter < maxJitter
       \<and> base - base div 3 \<le> base + jitter \<and> base + jitter < base + base div 3
       \<and> 0 < (base + jitter) * Millisecond
       \<and> (\<forall>j. - maxJitter \<le> j \<and> j < maxJitter \<longrightarrow>
            (\<exists>raw'. expJitterBackOff raw' i factor = Inr ((base + j) * Millisecond)))"
proof -
  have val: "expJitterBackOff r i factor = Inr ((base + (r mod (2 * maxJitter) - maxJitter)) * Millisecond)" for r
    using backoff_in_range [of i factor r] assms(4-7) by (simp add: base_def maxJitter_def)
  have m1: "1 \<le> maxJitter" using assms(6) unfolding maxJitter_def by linarith
  have m3: "3 * maxJitter \<le> base" unfolding maxJitter_def by linarith
  have j0: "- maxJitter \<le> jitter" and j1: "jitter < maxJitter"
    using m1 unfolding jitter_def by simp_all
  have pos: "0 < (base + jitter) * Millisecond"
    using j0 m1 m3 by (simp add: Millisecond_def)
  have att: "\<exists>raw'. expJitterBackOff raw' i factor = Inr ((base + j) * Millisecond)"
    if "- maxJitter \<le> j \<and> j < maxJitter" for j
  proof -
    have "(j + maxJitter) mod (2 * maxJitter) = j + maxJitter"
      using that by simp
    then have "expJitterBackOff (j + maxJitter) i factor = Inr ((base + j) * Millisecond)"
      by (simp add: val)
    then show ?thesis by blast
  qed
  show ?thesis
    using val [of raw] j0 j1 pos att by (simp add: jitter_def [symmetric] maxJitter_def [symmetric])
qed

text \<open>
  The theorem at attempt 2 with a factor of 5 ms: the base is 20 ms and \<open>maxJitter\<close> 6 ms;
  the draw 9 gives 23 ms, and the least delay, 14 ms, is reached as well.
\<close>

theorem expJitterBackOff_formula_witness:
  "(0::int) \<le> 2 \<and> (0::int) \<le> 5 * Millisecond \<and> (3::int) \<le> 2 ^ nat 2 * (5 * Millisecond div Millisecond)
   \<and> 2 ^ nat 2 * (5 * Millisecond div Millisecond) * Millisecond \<le> 2 ^ 62
   \<and> expJitterBackOff 9 2 (5 * Millisecond) = Inr (23 * Millisecond)
   \<and> (\<exists>raw'. expJitterBackOff raw' 2 (5 * Millisecond) = Inr (14 * Millisecond))"
proof -
  note t = expJitterBackOff_formula [of 2 "5 * Millisecond" 9]
  have a: "expJitterBackOff 9 2 (5 * Millisecond) = Inr (23 * Millisecond)"
    using t by (simp add: Millisecond_def)
  have "\<forall>j::int. - 6 \<le> j \<and> j < 6 \<longrightarrow>
          (\<exists>raw'. expJitterBackOff raw' 2 (5 * Millisecond) = Inr ((20 + j) * Millisecond))"
    using t by (simp add: Millisecond_def algebra_simps)
  then have "- 6 \<le> (- 6::int) \<and> (- 6::int) < 6 \<longrightarrow>
          (\<exists>raw'. expJitterBackOff raw' 2 (5 * Millisecond) = Inr ((20 + (- 6)) * Millisecond))"
    by (rule spec)
  then have b: "\<exists>raw'. expJitterBackOff raw' 2 (5 * Millisecond) = Inr (14 * Millisecond)"
    by simp
  show ?thesis using a b by (simp add: Millisecond_def)
qed

text \<open>
  Claim C5 says that the calculation completes for every attempt index and every factor,
  also below a millisecond, clamping a delay that is not positive to 1 ms. The clamp
  \<open>if ms <= 0 { ms = 1 }\<close> is there, but it comes after \<open>random.Intn(2*maxJitter)\<close>, which
  panics when \<open>maxJitter = 0\<close>: for attempt 0 that is every factor below 3 ms, whatever
  the draw of the random source.
\<close>

theorem expJitterBackOff_panics:
  "expJitterBackOff raw 0 (Millisecond div 2) = Inl InvalidArgumentToIntn
   \<and> expJitterBackOff raw 0 (1 * Millisecond) = Inl InvalidArgumentToIntn
   \<and> expJitterBackOff raw 0 (2 * Millisecond) = Inl InvalidArgumentToIntn"
  by (simp add: expJitterBackOff_def shl1_def wrap64_def quo_def Intn_def Millisecond_def)

text \<open>The same for every factor from 0 up to, but not including, 3 ms.\<close>

lemma expJitterBackOff_panics_below_3ms:
  assumes "0 \<le> factor" and "factor < 3 * Millisecond"
  shows "expJitterBackOff raw 0 factor = Inl InvalidArgumentToIntn"
proof -
  have q: "quo factor Millisecond = factor div Millisecond"
    using assms(1) by (simp add: quo_nonneg Millisecond_def)
  have lo: "0 \<le> factor div Millisecond"
    using assms(1) by (simp add: Millisecond_def pos_imp_zdiv_nonneg_iff)
  have hi: "factor div Millisecond < 3"
    using assms(2) by (simp add: Millisecond_def)
  have w: "wrap64 (factor div Millisecond) = factor div Millisecond"
    by (rule wrap64_id) (use lo hi in simp_all)
  have m: "quo (factor div Millisecond) 3 = 0"
    using lo hi by (simp add: quo_nonneg)
  show ?thesis
    by (simp add: expJitterBackOff_def shl1_def wrap64_def [of 1] q w m Intn_def)
qed

section \<open>Reading the body\<close>

text \<open>
  Claim C8. If reading the body of the request fails, \<open>Do\<close> returns no response and that
  error, and nothing else happened: no attempt was made (the record of attempts is empty,
  so there was no transport call and no wait) and no \<open>FailAwareHTTPError\<close> with attempt
  records was built.
\<close>

theorem Do_body_read_error:
  assumes "Body originalReq = Some r" and "failure r = Some er"
  shows "Do e c originalReq = (Returned None (Some (Plain er)), [])"
  using assms by (simp add: Do_def readBody_def ReadAll_def)

text \<open>The theorem at a request whose body fails with \<open>unexpected EOF\<close>.\<close>

theorem Do_body_read_error_witness:
  "Body brokenRequest = Some \<lparr>buf = [], off = 0, failure = Some readError\<rparr>
   \<and> failure \<lparr>buf = [], off = 0, failure = Some readError\<rparr> = Some readError
   \<and> Do unreachable NewDefaultClient brokenRequest = (Returned None (Some (Plain readError)), [])"
  using Do_body_read_error [of brokenRequest "\<lparr>buf = [], off = 0, failure = Some readError\<rparr>"
          readError unreachable NewDefaultClient]
  by (simp add: brokenRequest_def)

section \<open>A negative number of retries\<close>

text \<open>
  Claim C10, as stated, fails for a request whose body cannot be read: with
  \<open>MaxRetries = -1\<close> the call still returns the error of reading the body, not
  \<open>(nil, nil)\<close>.
\<close>

theorem negative_MaxRetries_broken_body:
  "MaxRetries (options (NewClient (optionsWithMinTimeouts (- 1)))) = - 1
   \<and> Do (answering 200) (NewClient (optionsWithMinTimeouts (- 1))) brokenRequest
       = (Returned None (Some (Plain readError)), [])"
  by (simp add: world_defs client_defs run_defs)

text \<open>
  Claim C10, amended. \<open>NewClient\<close> keeps a negative \<open>MaxRetries\<close> (and that is the only
  way to an effective value that is not positive: zero becomes 3). Then every call of
  \<open>Do\<close> whose request has no body or a body that can be read makes no attempt and returns
  \<open>(nil, nil)\<close>. (For a body that cannot be read, claim C8 applies.)
\<close>

theorem Do_negative_MaxRetries:
  assumes "MaxRetries opts < 0" and "readBody (Body originalReq) = Inr originalBody"
  shows "MaxRetries (options (NewClient opts)) = MaxRetries opts
       \<and> Do e (NewClient opts) originalReq = (Returned None None, [])
       \<and> (\<forall>given. MaxRetries (options (NewClient given)) \<le> 0 \<longleftrightarrow> MaxRetries given < 0)"
proof -
  have m: "MaxRetries (options (NewClient opts)) = MaxRetries opts"
    using assms(1) by (simp add: NewClient_def nullOptions_def Let_def)
  have "Do e (NewClient opts) originalReq =
          Do_loop e (NewClient opts) originalBody (entering e originalReq)"
    using assms(2) by (simp add: Do_def)
  also have "\<dots> = exhausted (entering e originalReq)"
    using assms(1) m by (simp add: Do_loop.simps entering_def)
  also have "\<dots> = (Returned None None, [])"
    by (simp add: exhausted_def entering_def)
  finally have d: "Do e (NewClient opts) originalReq = (Returned None None, [])" .
  have z: "\<forall>given. MaxRetries (options (NewClient given)) \<le> 0 \<longleftrightarrow> MaxRetries given < 0"
    by (auto simp: NewClient_def nullOptions_def defaultOptions_def NewDefaultOptions_def Let_def)
  from m d z show ?thesis by blast
qed

text \<open>The theorem at \<open>MaxRetries = -1\<close> and a request with a body of five bytes.\<close>

theorem Do_negative_MaxRetries_witness:
  "MaxRetries (optionsWithMinTimeouts (- 1)) < 0
   \<and> readBody (Body postRequest) = Inr (Some [100, 117, 109, 109, 121])
   \<and> MaxRetries (options (NewClient (optionsWithMinTimeouts (- 1)))) = - 1
   \<and> Do unreachable (NewClient (optionsWithMinTimeouts (- 1))) postRequest = (Returned None None, [])"
  using Do_negative_MaxRetries [of "optionsWithMinTimeouts (- 1)" postRequest
          "Some [100, 117, 109, 109, 121]" unreachable]
  by (simp add: optionsWithMinTimeouts_def postRequest_def readBody_def ReadAll_def)

section \<open>Replaying the body\<close>

lemma replay_stable:
  "replay ob (snd (httpClientDo e k (rq\<lparr>Body := map_option NewBuffer ob\<rparr>))) =
     rq\<lparr>Body := map_option NewBuffer ob\<rparr>"
  by (cases ob) (simp_all add: replay_def httpClientDo_def)

lemma replay_entering:
  assumes "readBody (Body originalReq) = Inr ob"
  shows "replay ob (req (entering e originalReq)) = originalReq\<lparr>Body := map_option NewBuffer ob\<rparr>"
  using assms
  by (cases ob) (auto simp: replay_def entering_def readBody_def split: option.splits sum.splits)

text \<open>
  In every execution of the loop that starts with nothing recorded, the outcome recorded
  for attempt \<open>i\<close> is what \<open>c.httpClient.Do\<close> returns, in attempt \<open>i\<close>, for the request whose
  body is a fresh reader over the captured bytes.
\<close>

lemma loop_sends_replayed_body:
  fixes e :: env and c :: FailAwareHTTPClient and ob :: "byte list option" and rq :: request
  assumes start: "replay ob (req s) = rq\<lparr>Body := map_option NewBuffer ob\<rparr>" "retried s = 0"
      "trace s = []"
  shows "\<forall>i < length (snd (Do_loop e c ob s)).
           outcome (snd (Do_loop e c ob s) ! i) =
             fst (httpClientDo e i (rq\<lparr>Body := map_option NewBuffer ob\<rparr>))"
proof -
  let ?rq = "rq\<lparr>Body := map_option NewBuffer ob\<rparr>"
  let ?I = "\<lambda>s. 0 \<le> retried s \<and> replay ob (req s) = ?rq
      \<and> length (trace s) = nat (retried s)
      \<and> (\<forall>i < length (trace s). outcome (trace s ! i) = fst (httpClientDo e i ?rq))"
  let ?Q = "\<lambda>p. \<forall>i < length (snd p). outcome (snd p ! i) = fst (httpClientDo e i ?rq)"
  show ?thesis
  proof (rule Do_loop_rule [where I = ?I and Q = ?Q])
    show "?I s" using start by simp
  next
    fix s s' :: locals
    assume inv: "?I s" and nx: "iteration e c ob s = Next s'"
    have rs: "replay ob (snd (httpClientDo e (nat (retried s)) (replay ob (req s)))) = ?rq"
      using inv by (simp add: replay_stable)
    have n: "nat (retried s + 1) = Suc (nat (retried s))"
      using inv by (simp add: nat_add_distrib)
    from nx show "?I (s'\<lparr>retried := retried s' + 1\<rparr>)"
      using inv rs n by (elim iteration_Next) (auto simp: nth_append less_Suc_eq)
  next
    fix s :: locals and r :: result and t :: "attempt list"
    assume inv: "?I s" and ex: "iteration e c ob s = Exit r t"
    from iteration_Exit [OF ex]
    have t: "t = trace s @ [\<lparr>handed = Body (replay ob (req s)),
                            outcome = attemptOutcome e ob s, waited = None\<rparr>]"
      by simp
    show "?Q (r, t)"
      using inv by (auto simp: t nth_append less_Suc_eq)
  next
    fix s :: locals
    assume "?I s"
    then show "?Q (exhausted s)" by (simp add: exhausted_def)
  qed
qed

lemma loop_replays_body:
  assumes "\<forall>a \<in> set (trace s). handed a = map_option NewBuffer ob"
    and "ob = None \<longrightarrow> Body (req s) = None"
  shows "\<forall>a \<in> set (snd (Do_loop e c ob s)). handed a = map_option NewBuffer ob"
proof (rule Do_loop_rule [where I = "\<lambda>s. (\<forall>a \<in> set (trace s). handed a = map_option NewBuffer ob)
                                      \<and> (ob = None \<longrightarrow> Body (req s) = None)"
                          and Q = "\<lambda>p. \<forall>a \<in> set (snd p). handed a = map_option NewBuffer ob"])
  show "(\<forall>a \<in> set (trace s). handed a = map_option NewBuffer ob) \<and> (ob = None \<longrightarrow> Body (req s) = None)"
    using assms by simp
next
  fix s s' :: locals
  assume inv: "(\<forall>a \<in> set (trace s). handed a = map_option NewBuffer ob) \<and> (ob = None \<longrightarrow> Body (req s) = None)"
    and nx: "iteration e c ob s = Next s'"
  have h: "Body (replay ob (req s)) = map_option NewBuffer ob"
    using inv by (cases ob) (simp_all add: replay_def)
  have b: "ob = None \<longrightarrow> Body (snd (httpClientDo e (nat (retried s)) (replay ob (req s)))) = None"
    using inv by (simp add: replay_def httpClientDo_def)
  from nx show "(\<forall>a \<in> set (trace (s'\<lparr>retried := retried s' + 1\<rparr>)). handed a = map_option NewBuffer ob)
        \<and> (ob = None \<longrightarrow> Body (req (s'\<lparr>retried := retried s' + 1\<rparr>)) = None)"
    using inv h b by (elim iteration_Next) simp
next
  fix s :: locals and r :: result and t :: "attempt list"
  assume inv: "(\<forall>a \<in> set (trace s). handed a = map_option NewBuffer ob) \<and> (ob = None \<longrightarrow> Body (req s) = None)"
    and ex: "iteration e c ob s = Exit r t"
  have h: "Body (replay ob (req s)) = map_option NewBuffer ob"
    using inv by (cases ob) (simp_all add: replay_def)
  from iteration_Exit [OF ex] have "t = trace s @ [\<lparr>handed = Body (replay ob (req s)),
                          outcome = attemptOutcome e ob s, waited = None\<rparr>]" by blast
  then show "\<forall>a \<in> set (snd (r, t)). handed a = map_option NewBuffer ob"
    using inv h by simp
next
  fix s :: locals
  assume "(\<forall>a \<in> set (trace s). handed a = map_option NewBuffer ob) \<and> (ob = None \<longrightarrow> Body (req s) = None)"
  then show "\<forall>a \<in> set (snd (exhausted s)). handed a = map_option NewBuffer ob"
    by (simp add: exhausted_def)
qed

text \<open>
  Claim C7. The body is read once, before the loop. In every attempt of a call the
  transport is handed a fresh reader at offset zero over the bytes captured from the
  original body, whatever the transport read from the reader of the attempt before; so
  the bytes of attempt \<open>k\<close> are those of the first attempt. If the request has no body,
  every attempt is made without one. What \<open>c.httpClient.Do\<close> is called with is that
  request: the outcome of attempt \<open>k\<close> is the one the transport gives, in attempt \<open>k\<close>, for
  the original request with the fresh reader as its body.
\<close>

theorem Do_replays_body:
  assumes "k < length (snd (Do e c originalReq))"
  shows "handed (snd (Do e c originalReq) ! k) =
           (case Body originalReq of
              None \<Rightarrow> None
            | Some r \<Rightarrow> Some \<lparr>buf = drop (off r) (buf r), off = 0, failure = None\<rparr>)
       \<and> handed (snd (Do e c originalReq) ! k) = handed (snd (Do e c originalReq) ! 0)
       \<and> outcome (snd (Do e c originalReq) ! k) =
           fst (httpClientDo e k
                 (originalReq\<lparr>Body :=
                    (case Body originalReq of
                       None \<Rightarrow> None
                     | Some r \<Rightarrow> Some \<lparr>buf = drop (off r) (buf r), off = 0,
                                        failure = None\<rparr>)\<rparr>))"
proof -
  let ?want = "case Body originalReq of
              None \<Rightarrow> None
            | Some r \<Rightarrow> Some \<lparr>buf = drop (off r) (buf r), off = 0, failure = None\<rparr>"
  have all: "\<forall>a \<in> set (snd (Do e c originalReq)). handed a = ?want"
  proof (cases "readBody (Body originalReq)")
    case (Inl er)
    then show ?thesis by (simp add: Do_def)
  next
    case (Inr ob)
    have w: "map_option NewBuffer ob = ?want"
      using Inr by (auto simp: readBody_def ReadAll_def NewBuffer_def split: option.splits)
    have n: "ob = None \<longrightarrow> Body (req (entering e originalReq)) = None"
      using Inr by (auto simp: readBody_def ReadAll_def entering_def split: option.splits)
    have "\<forall>a \<in> set (snd (Do_loop e c ob (entering e originalReq))). handed a = map_option NewBuffer ob"
      by (rule loop_replays_body) (use n in \<open>simp_all add: entering_def\<close>)
    then show ?thesis using Inr w by (simp add: Do_def)
  qed
  have sent: "outcome (snd (Do e c originalReq) ! k) =
                fst (httpClientDo e k (originalReq\<lparr>Body := ?want\<rparr>))"
  proof (cases "readBody (Body originalReq)")
    case (Inl er)
    then show ?thesis using assms by (simp add: Do_def)
  next
    case (Inr ob)
    have w: "map_option NewBuffer ob = ?want"
      using Inr by (auto simp: readBody_def ReadAll_def NewBuffer_def split: option.splits)
    have d: "Do e c originalReq = Do_loop e c ob (entering e originalReq)"
      using Inr by (simp add: Do_def)
    have "\<forall>i < length (snd (Do_loop e c ob (entering e originalReq))).
            outcome (snd (Do_loop e c ob (entering e originalReq)) ! i) =
              fst (httpClientDo e i (originalReq\<lparr>Body := map_option NewBuffer ob\<rparr>))"
      by (rule loop_sends_replayed_body)
         (use replay_entering [OF Inr, of e] in \<open>simp_all add: entering_def\<close>)
    then show ?thesis using assms by (simp add: d w)
  qed
  have z: "0 < length (snd (Do e c originalReq))" using assms by linarith
  have "handed (snd (Do e c originalReq) ! k) = ?want"
    using all assms nth_mem by blast
  moreover have "handed (snd (Do e c originalReq) ! 0) = ?want"
    using all z nth_mem by blast
  ultimately show ?thesis using sent by simp
qed

text \<open>
  The theorem at the third attempt of the default client against the echoing server,
  whose transport reads four of the five bytes of the body in every attempt: the third
  attempt is handed all five bytes again, and the answer holds all five.
\<close>

theorem Do_replays_body_witness:
  "2 < length (snd (Do echoing NewDefaultClient postRequest))
   \<and> handed (snd (Do echoing NewDefaultClient postRequest) ! 2) =
       Some \<lparr>buf = [100, 117, 109, 109, 121], off = 0, failure = None\<rparr>
   \<and> outcome (snd (Do echoing NewDefaultClient postRequest) ! 2) =
       (Some \<lparr>StatusCode = 500, Content = [100, 117, 109, 109, 121]\<rparr>, None)"
proof -
  have len: "2 < length (snd (Do echoing NewDefaultClient postRequest))"
    by (simp add: world_defs client_defs run_defs)
  from Do_replays_body [OF len] show ?thesis
    using len by (simp add: postRequest_def echoing_def httpClientDo_def)
qed

section \<open>The waits\<close>

lemma iteration_Exit_retryable:
  assumes "iteration e c ob s = Exit r t" and "retryable (attemptOutcome e ob s)"
  shows "r = Panicked InvalidArgumentToIntn"
    and "expJitterBackOff (draw e (nat (retried s))) (retried s) (BackOffDelayFactor (options c))
           = Inl InvalidArgumentToIntn"
  using iteration_Exit [OF assms(1)] assms(2) by (simp_all add: retryable_def)

lemma loop_waits:
  assumes "\<forall>a \<in> set (trace s). waited a \<noteq> None \<and> retryable (outcome a)"
  shows "\<forall>i < length (snd (Do_loop e c ob s)).
           (waited (snd (Do_loop e c ob s) ! i) \<noteq> None \<longrightarrow>
              retryable (outcome (snd (Do_loop e c ob s) ! i)))
         \<and> (retryable (outcome (snd (Do_loop e c ob s) ! i))
              \<and> waited (snd (Do_loop e c ob s) ! i) = None \<longrightarrow>
              fst (Do_loop e c ob s) = Panicked InvalidArgumentToIntn
              \<and> Suc i = length (snd (Do_loop e c ob s)))"
proof (rule Do_loop_rule [where I = "\<lambda>s. \<forall>a \<in> set (trace s). waited a \<noteq> None \<and> retryable (outcome a)"
         and Q = "\<lambda>p. \<forall>i < length (snd p).
           (waited (snd p ! i) \<noteq> None \<longrightarrow> retryable (outcome (snd p ! i)))
         \<and> (retryable (outcome (snd p ! i)) \<and> waited (snd p ! i) = None \<longrightarrow>
              fst p = Panicked InvalidArgumentToIntn \<and> Suc i = length (snd p))"])
  show "\<forall>a \<in> set (trace s). waited a \<noteq> None \<and> retryable (outcome a)"
    using assms .
next
  fix s s' :: locals
  assume inv: "\<forall>a \<in> set (trace s). waited a \<noteq> None \<and> retryable (outcome a)"
    and nx: "iteration e c ob s = Next s'"
  from nx show "\<forall>a \<in> set (trace (s'\<lparr>retried := retried s' + 1\<rparr>)).
                  waited a \<noteq> None \<and> retryable (outcome a)"
    using inv by (elim iteration_Next) simp
next
  fix s :: locals and r :: result and t :: "attempt list"
  assume inv: "\<forall>a \<in> set (trace s). waited a \<noteq> None \<and> retryable (outcome a)"
    and ex: "iteration e c ob s = Exit r t"
  from iteration_Exit [OF ex]
  have t: "t = trace s @ [\<lparr>handed = Body (replay ob (req s)),
                          outcome = attemptOutcome e ob s, waited = None\<rparr>]"
    by simp
  have r: "retryable (attemptOutcome e ob s) \<longrightarrow> r = Panicked InvalidArgumentToIntn"
    using iteration_Exit_retryable(1) [OF ex] by simp
  show "\<forall>i < length (snd (r, t)).
           (waited (snd (r, t) ! i) \<noteq> None \<longrightarrow> retryable (outcome (snd (r, t) ! i)))
         \<and> (retryable (outcome (snd (r, t) ! i)) \<and> waited (snd (r, t) ! i) = None \<longrightarrow>
              fst (r, t) = Panicked InvalidArgumentToIntn \<and> Suc i = length (snd (r, t)))"
  proof (intro allI impI)
    fix i
    assume "i < length (snd (r, t))"
    then have i: "i < length (trace s) \<or> i = length (trace s)" by (auto simp: t)
    then show "(waited (snd (r, t) ! i) \<noteq> None \<longrightarrow> retryable (outcome (snd (r, t) ! i)))
         \<and> (retryable (outcome (snd (r, t) ! i)) \<and> waited (snd (r, t) ! i) = None \<longrightarrow>
              fst (r, t) = Panicked InvalidArgumentToIntn \<and> Suc i = length (snd (r, t)))"
    proof
      assume "i < length (trace s)"
      then show ?thesis using inv by (simp add: t nth_append)
    next
      assume "i = length (trace s)"
      then show ?thesis using r by (simp add: t)
    qed
  qed
next
  fix s :: locals
  assume inv: "\<forall>a \<in> set (trace s). waited a \<noteq> None \<and> retryable (outcome a)"
  then show "\<forall>i < length (snd (exhausted s)).
           (waited (snd (exhausted s) ! i) \<noteq> None \<longrightarrow> retryable (outcome (snd (exhausted s) ! i)))
         \<and> (retryable (outcome (snd (exhausted s) ! i)) \<and> waited (snd (exhausted s) ! i) = None \<longrightarrow>
              fst (exhausted s) = Panicked InvalidArgumentToIntn
              \<and> Suc i = length (snd (exhausted s)))"
    by (simp add: exhausted_def)
qed

text \<open>
  Claim C6, as stated, fails: the wait of lines 201 to 203 has no condition on the index.
  With \<open>MaxRetries = 1\<close> and a transport that fails, attempt 0 is the last one (0 is not
  below \<open>MaxRetries - 1\<close>), and the call still waits 4 ms (for the draw 0) after it before
  it returns the failure.
\<close>

theorem wait_after_final_attempt:
  "Do unreachable (NewClient (optionsWithMinTimeouts 1)) getRequest =
     (Returned None (Some (FailAware
        \<lparr>Retries = 1,
         Errors = [\<lparr>err = Some dialError, response = None, timestampStarted = 0,
                     timestampFinished = 1000\<rparr>],
         LastError = Some dialError\<rparr>)),
      [\<lparr>handed = None, outcome = (None, Some dialError), waited = Some (4 * Millisecond)\<rparr>])
   \<and> \<not> (0 < MaxRetries (options (NewClient (optionsWithMinTimeouts 1))) - 1)"
  by (simp add: world_defs client_defs run_defs)

text \<open>
  Claim C6, amended. In every execution of \<open>Do\<close>, a wait follows attempt \<open>i\<close> only if the
  attempt is retryable, and it follows every retryable attempt, the final one before the
  loop falls through to exhaustion included; the one exception is a retryable attempt
  whose backoff calculation panics, which ends the call as its last attempt.
\<close>

theorem wait_follows_retryable_attempt:
  assumes "Do e c originalReq = (r, t)" and "i < length t"
  shows "(waited (t ! i) \<noteq> None \<longrightarrow> retryable (outcome (t ! i)))
       \<and> (retryable (outcome (t ! i)) \<longrightarrow>
            waited (t ! i) \<noteq> None \<or> (r = Panicked InvalidArgumentToIntn \<and> Suc i = length t))"
proof (cases "readBody (Body originalReq)")
  case (Inl er)
  then show ?thesis using assms by (simp add: Do_def)
next
  case (Inr ob)
  then have d: "Do_loop e c ob (entering e originalReq) = (r, t)"
    using assms(1) by (simp add: Do_def)
  have "\<forall>a \<in> set (trace (entering e originalReq)). waited a \<noteq> None \<and> retryable (outcome a)"
    by (simp add: entering_def)
  from loop_waits [OF this, of e c ob] show ?thesis
    using assms(2) by (auto simp: d)
qed

text \<open>
  The theorem at the second and last attempt of a client with \<open>MaxRetries = 2\<close> against a
  server that answers 503: the attempt is retryable and is followed by a wait of 7 ms.
\<close>

theorem wait_follows_retryable_attempt_witness:
  "Do (answering 503) (NewClient (optionsWithMinTimeouts 2)) getRequest =
     (Returned (Some \<lparr>StatusCode = 503, Content = []\<rparr>) None,
      [\<lparr>handed = None, outcome = (Some \<lparr>StatusCode = 503, Content = []\<rparr>, None),
         waited = Some (4 * Millisecond)\<rparr>,
       \<lparr>handed = None, outcome = (Some \<lparr>StatusCode = 503, Content = []\<rparr>, None),
         waited = Some (7 * Millisecond)\<rparr>])
   \<and> 1 < length (snd (Do (answering 503) (NewClient (optionsWithMinTimeouts 2)) getRequest))
   \<and> retryable (outcome (snd (Do (answering 503) (NewClient (optionsWithMinTimeouts 2)) getRequest) ! 1))
   \<and> waited (snd (Do (answering 503) (NewClient (optionsWithMinTimeouts 2)) getRequest) ! 1) \<noteq> None"
proof -
  have run: "Do (answering 503) (NewClient (optionsWithMinTimeouts 2)) getRequest =
     (Returned (Some \<lparr>StatusCode = 503, Content = []\<rparr>) None,
      [\<lparr>handed = None, outcome = (Some \<lparr>StatusCode = 503, Content = []\<rparr>, None),
         waited = Some (4 * Millisecond)\<rparr>,
       \<lparr>handed = None, outcome = (Some \<lparr>StatusCode = 503, Content = []\<rparr>, None),
         waited = Some (7 * Millisecond)\<rparr>])"
    by (simp add: world_defs client_defs run_defs)
  have ret: "retryable (Some \<lparr>StatusCode = 503, Content = []\<rparr>, None)"
    by (simp add: retryable_def terminalSuccess_def)
  from wait_follows_retryable_attempt [OF run, of 1] show ?thesis
    using ret by (simp add: run)
qed

section \<open>Exhaustion\<close>

lemma loop_exhausts:
  fixes e :: env and c :: FailAwareHTTPClient and ob :: "byte list option" and rq :: request
  defines "N \<equiv> nat (MaxRetries (options c))"
  assumes pos: "1 \<le> MaxRetries (options c)"
    and retry: "\<forall>k<N. retryable (outcomeAt e ob rq k)"
    and backoff: "\<forall>k<N. \<exists>jitter. expJitterBackOff (draw e k) (int k) (BackOffDelayFactor (options c))
                                      = Inr jitter"
    and start: "replay ob (req s) = rq\<lparr>Body := map_option NewBuffer ob\<rparr>" "retried s = 0"
      "errLog s = []" "trace s = []"
  shows "\<exists>s'. Do_loop e c ob s = exhausted s'
            \<and> retried s' = MaxRetries (options c)
            \<and> lastResponse s' = fst (outcomeAt e ob rq (N - 1))
            \<and> lastError s' = snd (outcomeAt e ob rq (N - 1))
            \<and> map err (errLog s') = (if KeepLog (options c)
                 then map (\<lambda>k. snd (outcomeAt e ob rq k)) [0..<N] else [])
            \<and> map response (errLog s') = (if KeepLog (options c)
                 then map (\<lambda>k. fst (outcomeAt e ob rq k)) [0..<N] else [])
            \<and> map outcome (trace s') = map (outcomeAt e ob rq) [0..<N]"
proof -
  let ?I = "\<lambda>s. 0 \<le> retried s \<and> retried s \<le> MaxRetries (options c)
      \<and> replay ob (req s) = rq\<lparr>Body := map_option NewBuffer ob\<rparr>
      \<and> (0 < retried s \<longrightarrow> lastResponse s = fst (outcomeAt e ob rq (nat (retried s) - 1))
                           \<and> lastError s = snd (outcomeAt e ob rq (nat (retried s) - 1)))
      \<and> map err (errLog s) = (if KeepLog (options c)
                 then map (\<lambda>k. snd (outcomeAt e ob rq k)) [0..<nat (retried s)] else [])
      \<and> map response (errLog s) = (if KeepLog (options c)
                 then map (\<lambda>k. fst (outcomeAt e ob rq k)) [0..<nat (retried s)] else [])
      \<and> map outcome (trace s) = map (outcomeAt e ob rq) [0..<nat (retried s)]"
  let ?Q = "\<lambda>p. \<exists>s'. p = exhausted s'
            \<and> retried s' = MaxRetries (options c)
            \<and> lastResponse s' = fst (outcomeAt e ob rq (N - 1))
            \<and> lastError s' = snd (outcomeAt e ob rq (N - 1))
            \<and> map err (errLog s') = (if KeepLog (options c)
                 then map (\<lambda>k. snd (outcomeAt e ob rq k)) [0..<N] else [])
            \<and> map response (errLog s') = (if KeepLog (options c)
                 then map (\<lambda>k. fst (outcomeAt e ob rq k)) [0..<N] else [])
            \<and> map outcome (trace s') = map (outcomeAt e ob rq) [0..<N]"
  show ?thesis
  proof (rule Do_loop_rule [where I = ?I and Q = ?Q])
    show "?I s" using start pos by simp
  next
    fix s s' :: locals
    assume inv: "?I s" and lt: "retried s < MaxRetries (options c)"
      and nx: "iteration e c ob s = Next s'"
    have out: "attemptOutcome e ob s = outcomeAt e ob rq (nat (retried s))"
      using inv by (simp add: outcomeAt_def)
    have rs: "replay ob (snd (httpClientDo e (nat (retried s)) (replay ob (req s)))) =
                rq\<lparr>Body := map_option NewBuffer ob\<rparr>"
      using inv by (simp add: replay_stable)
    have n: "nat (retried s + 1) = Suc (nat (retried s))"
      using inv by (simp add: nat_add_distrib)
    from nx show "?I (s'\<lparr>retried := retried s' + 1\<rparr>)"
      using inv lt out rs n by (elim iteration_Next) (simp add: errEntryNow_def)
  next
    fix s :: locals and r :: result and t :: "attempt list"
    assume inv: "?I s" and lt: "retried s < MaxRetries (options c)"
      and ex: "iteration e c ob s = Exit r t"
    have k: "nat (retried s) < N" using inv lt by (simp add: N_def)
    have out: "attemptOutcome e ob s = outcomeAt e ob rq (nat (retried s))"
      using inv by (simp add: outcomeAt_def)
    have "retryable (attemptOutcome e ob s)" using retry k out by simp
    from iteration_Exit_retryable(2) [OF ex this]
    have "expJitterBackOff (draw e (nat (retried s))) (retried s) (BackOffDelayFactor (options c))
            = Inl InvalidArgumentToIntn" .
    moreover have "int (nat (retried s)) = retried s" using inv by simp
    ultimately have False using backoff k by (metis sum.distinct(1))
    then show "?Q (r, t)" ..
  next
    fix s :: locals
    assume inv: "?I s" and ge: "\<not> retried s < MaxRetries (options c)"
    have eq: "retried s = MaxRetries (options c)" using inv ge by linarith
    then have n: "nat (retried s) = N" by (simp add: N_def)
    have "0 < retried s" using eq pos by linarith
    then show "?Q (exhausted s)" using inv eq n by (intro exI [of _ s]) simp
  qed
qed

text \<open>
  Claim C1, as stated, fails: after the loop, line 207 returns the last response with a
  \<open>nil\<close> error whenever the last attempt ended without a transport error. A server that
  answers 500 to every one of the three attempts of the default client makes every
  attempt retryable, and \<open>Do\<close> returns that response and no error at all.
\<close>

theorem exhaustion_with_nil_error:
  "fst (Do (answering 500) NewDefaultClient getRequest) =
     Returned (Some \<lparr>StatusCode = 500, Content = []\<rparr>) None
   \<and> map outcome (snd (Do (answering 500) NewDefaultClient getRequest)) =
       [(Some \<lparr>StatusCode = 500, Content = []\<rparr>, None),
        (Some \<lparr>StatusCode = 500, Content = []\<rparr>, None),
        (Some \<lparr>StatusCode = 500, Content = []\<rparr>, None)]
   \<and> retryable (Some \<lparr>StatusCode = 500, Content = []\<rparr>, None)
   \<and> MaxRetries (options NewDefaultClient) = 3"
  by (simp add: world_defs client_defs run_defs retryable_def)

text \<open>
  Claim C1, amended. Take a call whose body can be read, with \<open>MaxRetries \<ge> 1\<close>, in which
  every one of the \<open>MaxRetries\<close> attempts is retryable and no backoff calculation fails.
  Then \<open>Do\<close> makes exactly these attempts. If the last attempt ended with a transport
  error, \<open>Do\<close> returns the last response together with a \<open>FailAwareHTTPError\<close> whose
  \<open>Retries\<close> is \<open>MaxRetries\<close>, whose \<open>LastError\<close> is that error and whose \<open>Errors\<close> hold the
  error and response of every attempt in order when \<open>KeepLog\<close> is set (and are empty
  otherwise). If the last attempt ended with a response and no error (status 429, or 500
  and above), \<open>Do\<close> returns that response and a \<open>nil\<close> error.
\<close>

theorem Do_exhausted:
  fixes e :: env and c :: FailAwareHTTPClient and ob :: "byte list option"
    and originalReq :: request
  defines "N \<equiv> nat (MaxRetries (options c))"
  defines "final \<equiv> outcomeAt e ob originalReq (N - 1)"
  assumes body: "readBody (Body originalReq) = Inr ob"
    and pos: "1 \<le> MaxRetries (options c)"
    and retry: "\<forall>k<N. retryable (outcomeAt e ob originalReq k)"
    and backoff: "\<forall>k<N. \<exists>jitter. expJitterBackOff (draw e k) (int k)
                                       (BackOffDelayFactor (options c)) = Inr jitter"
  shows "map outcome (snd (Do e c originalReq)) = map (outcomeAt e ob originalReq) [0..<N]
       \<and> (snd final = None \<longrightarrow> fst (Do e c originalReq) = Returned (fst final) None)
       \<and> (snd final \<noteq> None \<longrightarrow>
            (\<exists>log. fst (Do e c originalReq) =
                      Returned (fst final)
                        (Some (FailAware \<lparr>Retries = MaxRetries (options c), Errors = log,
                                           LastError = snd final\<rparr>))
                 \<and> map err log = (if KeepLog (options c)
                      then map (\<lambda>k. snd (outcomeAt e ob originalReq k)) [0..<N] else [])
                 \<and> map response log = (if KeepLog (options c)
                      then map (\<lambda>k. fst (outcomeAt e ob originalReq k)) [0..<N] else [])))"
proof -
  have d: "Do e c originalReq = Do_loop e c ob (entering e originalReq)"
    using body by (simp add: Do_def)
  from loop_exhausts [OF pos, of e ob originalReq "entering e originalReq"]
  obtain s' where s': "Do_loop e c ob (entering e originalReq) = exhausted s'"
      "retried s' = MaxRetries (options c)"
      "lastResponse s' = fst final" "lastError s' = snd final"
      "map err (errLog s') = (if KeepLog (options c)
                 then map (\<lambda>k. snd (outcomeAt e ob originalReq k)) [0..<N] else [])"
      "map response (errLog s') = (if KeepLog (options c)
                 then map (\<lambda>k. fst (outcomeAt e ob originalReq k)) [0..<N] else [])"
      "map outcome (trace s') = map (outcomeAt e ob originalReq) [0..<N]"
    using retry backoff replay_entering [OF body, of e]
    unfolding N_def final_def by (auto simp: entering_def)
  have a: "map outcome (snd (Do e c originalReq)) = map (outcomeAt e ob originalReq) [0..<N]"
    using s' by (simp add: d exhausted_def)
  have b: "snd final = None \<longrightarrow> fst (Do e c originalReq) = Returned (fst final) None"
    using s' by (simp add: d exhausted_def)
  have c: "snd final \<noteq> None \<longrightarrow>
            (\<exists>log. fst (Do e c originalReq) =
                      Returned (fst final)
                        (Some (FailAware \<lparr>Retries = MaxRetries (options c), Errors = log,
                                           LastError = snd final\<rparr>))
                 \<and> map err log = (if KeepLog (options c)
                      then map (\<lambda>k. snd (outcomeAt e ob originalReq k)) [0..<N] else [])
                 \<and> map response log = (if KeepLog (options c)
                      then map (\<lambda>k. fst (outcomeAt e ob originalReq k)) [0..<N] else []))"
  proof
    assume "snd final \<noteq> None"
    then have "fst (Do e c originalReq) =
                 Returned (fst final)
                   (Some (FailAware \<lparr>Retries = MaxRetries (options c), Errors = errLog s',
                                      LastError = snd final\<rparr>))"
      using s' by (simp add: d exhausted_def)
    then show "\<exists>log. fst (Do e c originalReq) =
                      Returned (fst final)
                        (Some (FailAware \<lparr>Retries = MaxRetries (options c), Errors = log,
                                           LastError = snd final\<rparr>))
                 \<and> map err log = (if KeepLog (options c)
                      then map (\<lambda>k. snd (outcomeAt e ob originalReq k)) [0..<N] else [])
                 \<and> map response log = (if KeepLog (options c)
                      then map (\<lambda>k. fst (outcomeAt e ob originalReq k)) [0..<N] else [])"
      using s'(5,6) by blast
  qed
  from a b c show ?thesis by blast
qed

text \<open>
  The theorem at a client with \<open>MaxRetries = 2\<close> and \<open>KeepLog\<close>, a request with a body and a
  transport that fails on both attempts.
\<close>

theorem Do_exhausted_witness:
  "readBody (Body postRequest) = Inr (Some [100, 117, 109, 109, 121])
   \<and> 1 \<le> MaxRetries (options (NewClient (optionsWithMinTimeouts 2)))
   \<and> retryable (outcomeAt unreachable (Some [100, 117, 109, 109, 121]) postRequest 0)
   \<and> retryable (outcomeAt unreachable (Some [100, 117, 109, 109, 121]) postRequest 1)
   \<and> expJitterBackOff (draw unreachable 0) 0 (5 * Millisecond) = Inr (4 * Millisecond)
   \<and> expJitterBackOff (draw unreachable 1) 1 (5 * Millisecond) = Inr (7 * Millisecond)
   \<and> map outcome (snd (Do unreachable (NewClient (optionsWithMinTimeouts 2)) postRequest)) =
       [(None, Some dialError), (None, Some dialError)]
   \<and> (\<exists>log. fst (Do unreachable (NewClient (optionsWithMinTimeouts 2)) postRequest) =
               Returned None (Some (FailAware \<lparr>Retries = 2, Errors = log,
                                                LastError = Some dialError\<rparr>))
          \<and> map err log = [Some dialError, Some dialError]
          \<and> map response log = [None, None])"
proof -
  let ?c = "NewClient (optionsWithMinTimeouts 2)"
  let ?ob = "Some [100, 117, 109, 109, 121] :: byte list option"
  have c: "MaxRetries (options ?c) = 2" "BackOffDelayFactor (options ?c) = 5 * Millisecond"
      "KeepLog (options ?c)"
    by (simp_all add: world_defs client_defs)
  have body: "readBody (Body postRequest) = Inr ?ob"
    by (simp add: postRequest_def readBody_def ReadAll_def)
  have pos: "1 \<le> MaxRetries (options ?c)" by (simp add: c)
  have out: "outcomeAt unreachable ?ob postRequest k = (None, Some dialError)" for k
    by (simp add: outcomeAt_def httpClientDo_def unreachable_def postRequest_def)
  have ret: "retryable (None, Some dialError)"
    by (simp add: retryable_def terminalSuccess_def)
  have b0: "expJitterBackOff (draw unreachable 0) 0 (5 * Millisecond) = Inr (4 * Millisecond)"
    and b1: "expJitterBackOff (draw unreachable 1) 1 (5 * Millisecond) = Inr (7 * Millisecond)"
    by (simp_all add: unreachable_def expJitterBackOff_def shl1_def wrap64_def quo_def Intn_def
          Millisecond_def)
  have retry: "\<forall>k<nat (MaxRetries (options ?c)). retryable (outcomeAt unreachable ?ob postRequest k)"
    by (simp add: out ret)
  have backoff: "\<forall>k<nat (MaxRetries (options ?c)).
      \<exists>jitter. expJitterBackOff (draw unreachable k) (int k) (BackOffDelayFactor (options ?c))
                 = Inr jitter"
  proof (intro allI impI)
    fix k assume "k < nat (MaxRetries (options ?c))"
    then have "k = 0 \<or> k = 1" by (auto simp: c)
    then show "\<exists>jitter. expJitterBackOff (draw unreachable k) (int k)
                 (BackOffDelayFactor (options ?c)) = Inr jitter"
      using b0 b1 by (auto simp: c)
  qed
  have up: "[0..<2] = [0, Suc 0]"
    by (simp add: numeral_2_eq_2)
  from Do_exhausted [OF body pos retry backoff]
  show ?thesis
    using body pos b0 b1 by (simp add: out ret up c)
qed

section \<open>A transport that always fails\<close>

text \<open>
  Claim C3 says that for every \<open>MaxRetries = N \<ge> 1\<close> and a transport that fails on every
  attempt, \<open>Do\<close> returns a failure with \<open>Retries = N\<close> and, with \<open>KeepLog\<close>, \<open>N\<close> log
  entries. With \<open>N = 1\<close> and a backoff factor of 1 ms the call does not return at all: the
  backoff calculation after the first attempt panics (the defect of claim C5).
\<close>

theorem Do_panics_with_small_factor:
  "Do unreachable
      (NewClient \<lparr>MaxRetries = 1, Timeout = 10 * Millisecond,
                  BackOffDelayFactor = 1 * Millisecond, KeepLog = True\<rparr>) getRequest =
     (Panicked InvalidArgumentToIntn,
      [\<lparr>handed = None, outcome = (None, Some dialError), waited = None\<rparr>])"
  by (simp add: world_defs client_defs run_defs)

lemma backoff_positive:
  fixes F raw :: int and k N :: nat
  assumes f: "0 \<le> F" and lo: "3 \<le> F div Millisecond"
    and hi: "2 ^ (N - 1) * (F div Millisecond) * Millisecond \<le> 2 ^ 62" and k: "k < N"
  shows "\<exists>jitter>0. expJitterBackOff raw (int k) F = Inr jitter"
proof -
  define base where "base = 2 ^ nat (int k) * (F div Millisecond)"
  have p: "(2::int) ^ k \<le> 2 ^ (N - 1)"
    using k by (intro power_increasing) simp_all
  have p1: "(1::int) \<le> 2 ^ k" by simp
  have nk: "nat (int k) = k" by simp
  have h: "F div Millisecond \<le> 2 ^ k * (F div Millisecond)"
    using mult_right_mono [OF p1, of "F div Millisecond"] lo by simp
  have b3: "3 \<le> base"
    unfolding base_def nk using h lo by linarith
  have "base \<le> 2 ^ (N - 1) * (F div Millisecond)"
    unfolding base_def using p lo by (simp add: mult_right_mono)
  then have "base * Millisecond \<le> 2 ^ (N - 1) * (F div Millisecond) * Millisecond"
    by (simp add: Millisecond_def)
  then have bh: "base * Millisecond \<le> 2 ^ 62" using hi by linarith
  have val: "expJitterBackOff raw (int k) F =
               Inr ((base + (raw mod (2 * (base div 3)) - base div 3)) * Millisecond)"
    unfolding base_def
    by (rule backoff_in_range) (use f b3 bh in \<open>simp_all add: base_def\<close>)
  have m1: "1 \<le> base div 3" using b3 by linarith
  have "0 \<le> raw mod (2 * (base div 3))" using m1 by simp
  then have "0 < base + (raw mod (2 * (base div 3)) - base div 3)" using b3 by linarith
  then have "0 < (base + (raw mod (2 * (base div 3)) - base div 3)) * Millisecond"
    by (simp add: Millisecond_def)
  with val show ?thesis by blast
qed


lemma loop_timestamps:
  fixes e :: env and c :: FailAwareHTTPClient and ob :: "byte list option"
  assumes backoff: "\<forall>k<nat (MaxRetries (options c)).
      \<exists>jitter>0. expJitterBackOff (draw e k) (int k) (BackOffDelayFactor (options c)) = Inr jitter"
    and start: "retried s = 0" "errLog s = []"
  shows "\<forall>rsp f. fst (Do_loop e c ob s) = Returned rsp (Some (FailAware f)) \<longrightarrow>
           sorted_wrt (<) (map timestampStarted (Errors f))
           \<and> length (Errors f) = (if KeepLog (options c) then nat (Retries f) else 0)"
proof -
  let ?I = "\<lambda>s. 0 \<le> retried s
      \<and> sorted_wrt (<) (map timestampStarted (errLog s))
      \<and> (\<forall>x \<in> set (errLog s). timestampStarted x < now s)
      \<and> length (errLog s) = (if KeepLog (options c) then nat (retried s) else 0)"
  let ?Q = "\<lambda>p. \<forall>rsp f. fst p = Returned rsp (Some (FailAware f)) \<longrightarrow>
           sorted_wrt (<) (map timestampStarted (Errors f))
           \<and> length (Errors f) = (if KeepLog (options c) then nat (Retries f) else 0)"
  show ?thesis
  proof (rule Do_loop_rule [where I = ?I and Q = ?Q])
    show "?I s" using start by simp
  next
    fix s s' :: locals
    assume inv: "?I s" and lt: "retried s < MaxRetries (options c)"
      and nx: "iteration e c ob s = Next s'"
    have k: "nat (retried s) < nat (MaxRetries (options c))" using inv lt by simp
    have ik: "int (nat (retried s)) = retried s" using inv by simp
    have n: "nat (retried s + 1) = Suc (nat (retried s))"
      using inv by (simp add: nat_add_distrib)
    from nx show "?I (s'\<lparr>retried := retried s' + 1\<rparr>)"
    proof (elim iteration_Next)
      fix jitter
      assume j: "expJitterBackOff (draw e (nat (retried s))) (retried s)
                    (BackOffDelayFactor (options c)) = Inr jitter"
        and r: "retried s' = retried s"
        and l: "errLog s' = (if KeepLog (options c)
                  then errLog s @ [errEntryNow (snd (attemptOutcome e ob s)) (fst (attemptOutcome e ob s))
                                     (now s) (now s + int (took e (nat (retried s))))]
                  else errLog s)"
        and t: "now s' = now s + int (took e (nat (retried s))) + max 0 jitter
                          + int (lag e (nat (retried s)))"
      have "0 < jitter" using backoff k j ik by (metis Inr_inject)
      then have later: "now s < now s'" using t by simp
      show ?thesis
        using inv later r l n
        by (auto simp: sorted_wrt_append errEntryNow_def)
    qed
  next
    fix s :: locals and r :: result and t :: "attempt list"
    assume ex: "iteration e c ob s = Exit r t"
    from iteration_Exit [OF ex] have "\<forall>rsp f. r \<noteq> Returned rsp (Some (FailAware f))"
      by (auto split: sum.splits bool.splits)
    then show "?Q (r, t)" by simp
  next
    fix s :: locals
    assume inv: "?I s"
    then show "?Q (exhausted s)" by (auto simp: exhausted_def)
  qed
qed

text \<open>
  Outside that defect the claim holds: with a factor of at least 3 ms, and a number of
  attempts for which the longest delay stays in the range of \<open>time.Duration\<close>, a transport
  that fails on every attempt makes \<open>Do\<close> return a failure with \<open>Retries = N\<close>, whose log
  has, with \<open>KeepLog\<close>, exactly \<open>N\<close> entries with strictly increasing start times.
\<close>

lemma Do_transport_failing:
  fixes e :: env and c :: FailAwareHTTPClient and ob :: "byte list option"
    and originalReq :: request
  defines "N \<equiv> nat (MaxRetries (options c))"
  defines "F \<equiv> BackOffDelayFactor (options c)"
  assumes body: "readBody (Body originalReq) = Inr ob"
    and pos: "1 \<le> MaxRetries (options c)"
    and fails: "\<forall>k<N. snd (outcomeAt e ob originalReq k) \<noteq> None"
    and f: "0 \<le> F" and lo: "3 \<le> F div Millisecond"
    and hi: "2 ^ (N - 1) * (F div Millisecond) * Millisecond \<le> 2 ^ 62"
  shows "\<exists>rsp f. fst (Do e c originalReq) = Returned rsp (Some (FailAware f))
           \<and> Retries f = MaxRetries (options c)
           \<and> LastError f = snd (outcomeAt e ob originalReq (N - 1))
           \<and> length (snd (Do e c originalReq)) = N
           \<and> (KeepLog (options c) \<longrightarrow>
                length (Errors f) = N \<and> sorted_wrt (<) (map timestampStarted (Errors f)))"
proof -
  have d: "Do e c originalReq = Do_loop e c ob (entering e originalReq)"
    using body by (simp add: Do_def)
  have bo: "\<forall>k<N. \<exists>jitter>0. expJitterBackOff (draw e k) (int k) F = Inr jitter"
    using backoff_positive [OF f lo hi] by blast
  then have bo': "\<forall>k<N. \<exists>jitter. expJitterBackOff (draw e k) (int k) F = Inr jitter"
    by blast
  have retry: "\<forall>k<N. retryable (outcomeAt e ob originalReq k)"
    using fails by (auto simp: retryable_def terminalSuccess_def split: option.splits)
  from loop_exhausts [OF pos, of e ob originalReq "entering e originalReq"]
  obtain s' where s': "Do_loop e c ob (entering e originalReq) = exhausted s'"
      "retried s' = MaxRetries (options c)"
      "lastError s' = snd (outcomeAt e ob originalReq (N - 1))"
      "map outcome (trace s') = map (outcomeAt e ob originalReq) [0..<N]"
    using retry bo' replay_entering [OF body, of e]
    unfolding N_def F_def by (auto simp: entering_def)
  have "N - 1 < N" using pos by (simp add: N_def)
  then have le: "lastError s' \<noteq> None" using fails s'(3) by simp
  then have res: "fst (Do e c originalReq) =
      Returned (lastResponse s')
        (Some (FailAware \<lparr>Retries = MaxRetries (options c), Errors = errLog s',
                           LastError = snd (outcomeAt e ob originalReq (N - 1))\<rparr>))"
    using s' by (simp add: d exhausted_def)
  have len: "length (snd (Do e c originalReq)) = N"
    using s'(1) arg_cong [OF s'(4), of length] by (simp add: d exhausted_def)
  from loop_timestamps [where c = c and e = e and ob = ob and s = "entering e originalReq"] bo res
  have ts: "sorted_wrt (<) (map timestampStarted (errLog s'))
        \<and> length (errLog s') = (if KeepLog (options c) then N else 0)"
    unfolding N_def F_def by (simp add: d entering_def)
  show ?thesis using res len ts by simp
qed

section \<open>Cancellation\<close>

text \<open>
  Claim C9 says that a call whose cancellation signal is set before any attempt produces
  a failure with \<open>Retries = 0\<close>, and that an abort ends the loop at once. \<open>Do\<close> never
  looks at the request's context: for a request that is already cancelled, the default
  client makes all three attempts, each failing in the transport with the context's
  error, waits after each of them, and reports \<open>Retries = 3\<close>.
\<close>

theorem Do_ignores_cancellation:
  "Do (answering 200) NewDefaultClient cancelledRequest =
     (Returned None
        (Some (FailAware \<lparr>Retries = 3, Errors = [], LastError = Some Canceled\<rparr>)),
      [\<lparr>handed = None, outcome = (None, Some Canceled), waited = Some (667 * Millisecond)\<rparr>,
       \<lparr>handed = None, outcome = (None, Some Canceled), waited = Some (1334 * Millisecond)\<rparr>,
       \<lparr>handed = None, outcome = (None, Some Canceled), waited = Some (2667 * Millisecond)\<rparr>])"
  by (simp add: world_defs client_defs run_defs)


text \<open>
  Whatever the world does, a failure that \<open>Do\<close> reports carries \<open>Retries = MaxRetries\<close>, which
  is then at least 1: no execution reports a failure with \<open>Retries = 0\<close> or with the
  number of attempts made before an abort.
\<close>

lemma failure_reports_MaxRetries:
  assumes "Do e c originalReq = (Returned rsp (Some (FailAware f)), t)"
  shows "Retries f = MaxRetries (options c) \<and> 1 \<le> Retries f"
proof (cases "readBody (Body originalReq)")
  case (Inl er)
  then show ?thesis using assms by (simp add: Do_def)
next
  case (Inr ob)
  then have d: "Do_loop e c ob (entering e originalReq) = (Returned rsp (Some (FailAware f)), t)"
    using assms by (simp add: Do_def)
  let ?I = "\<lambda>s. 0 \<le> retried s \<and> (retried s = 0 \<longrightarrow> lastError s = None)
                \<and> (0 < retried s \<longrightarrow> retried s \<le> MaxRetries (options c))"
  let ?Q = "\<lambda>p. \<forall>rsp f. fst p = Returned rsp (Some (FailAware f)) \<longrightarrow>
                Retries f = MaxRetries (options c) \<and> 1 \<le> Retries f"
  have "?Q (Do_loop e c ob (entering e originalReq))"
  proof (rule Do_loop_rule [where I = ?I and Q = ?Q])
    show "?I (entering e originalReq)" by (simp add: entering_def)
  next
    fix s s' :: locals
    assume inv: "?I s" and lt: "retried s < MaxRetries (options c)"
      and nx: "iteration e c ob s = Next s'"
    from nx show "?I (s'\<lparr>retried := retried s' + 1\<rparr>)"
      using inv lt by (elim iteration_Next) simp
  next
    fix s :: locals and r :: result and t :: "attempt list"
    assume ex: "iteration e c ob s = Exit r t"
    from iteration_Exit [OF ex] have "\<forall>rsp f. r \<noteq> Returned rsp (Some (FailAware f))"
      by (auto split: sum.splits bool.splits)
    then show "?Q (r, t)" by simp
  next
    fix s :: locals
    assume inv: "?I s" and ge: "\<not> retried s < MaxRetries (options c)"
    show "?Q (exhausted s)"
    proof (intro allI impI)
      fix rsp f
      assume a: "fst (exhausted s) = Returned rsp (Some (FailAware f))"
      then have le: "lastError s \<noteq> None" and rf: "Retries f = retried s"
        by (auto simp: exhausted_def split: if_splits)
      from le inv have "0 < retried s" by (cases "retried s = 0") auto
      with inv ge rf show "Retries f = MaxRetries (options c) \<and> 1 \<le> Retries f" by simp
    qed
  qed
  then show ?thesis by (simp add: d)
qed

end
